theory Spec2Isabelle
  imports Complex_Main
begin

section \<open>The lineage viewport of \<open>frontend/src/App.js\<close> (component \<open>AlationStyleLineage\<close>)\<close>

text \<open>
  The component keeps a pan/zoom transform, an expanded-table list and a selected column,
  and derives from them a fit transform, node boxes and connection paths. JavaScript
  numbers are modelled as real numbers (exact arithmetic, no rounding); the two
  accumulator loops that start from \<open>Infinity\<close> and \<open>-Infinity\<close> are modelled over
  \<open>jsnum\<close>, reals extended with the two infinities and NaN. Table positions, pointer
  coordinates and sizes are finite numbers.
\<close>

subsection \<open>Numbers of the bounds loops\<close>

datatype jsnum = Fin real | PInf | NInf | NaN

text \<open>\<open>Math.min\<close> and \<open>Math.max\<close>: NaN if an argument is NaN.\<close>

fun js_min :: "jsnum \<Rightarrow> jsnum \<Rightarrow> jsnum" where
  "js_min NaN b = NaN"
| "js_min a NaN = NaN"
| "js_min NInf b = NInf"
| "js_min a NInf = NInf"
| "js_min PInf b = b"
| "js_min a PInf = a"
| "js_min (Fin a) (Fin b) = Fin (min a b)"

fun js_max :: "jsnum \<Rightarrow> jsnum \<Rightarrow> jsnum" where
  "js_max NaN b = NaN"
| "js_max a NaN = NaN"
| "js_max PInf b = PInf"
| "js_max a PInf = PInf"
| "js_max NInf b = b"
| "js_max a NInf = a"
| "js_max (Fin a) (Fin b) = Fin (max a b)"

text \<open>Addition and subtraction: \<open>Infinity - Infinity\<close> is NaN.\<close>

fun js_add :: "jsnum \<Rightarrow> jsnum \<Rightarrow> jsnum" where
  "js_add NaN b = NaN"
| "js_add a NaN = NaN"
| "js_add PInf NInf = NaN"
| "js_add NInf PInf = NaN"
| "js_add PInf b = PInf"
| "js_add a PInf = PInf"
| "js_add NInf b = NInf"
| "js_add a NInf = NInf"
| "js_add (Fin a) (Fin b) = Fin (a + b)"

fun js_neg :: "jsnum \<Rightarrow> jsnum" where
  "js_neg NaN = NaN"
| "js_neg PInf = NInf"
| "js_neg NInf = PInf"
| "js_neg (Fin a) = Fin (- a)"

definition js_sub :: "jsnum \<Rightarrow> jsnum \<Rightarrow> jsnum" where
  "js_sub a b = js_add a (js_neg b)"

subsection \<open>Data model\<close>

text \<open>
  A table of \<open>lineageData.tables\<close>. The code reads \<open>table?.position\<close> and
  \<open>table.columns?.length\<close>, so both may be absent.
\<close>

record table =
  table_id :: string
  position :: "(real \<times> real) option"
  columns :: "string list option"

text \<open>A connection of \<open>lineageData.connections\<close>: \<open>{from: {table, column}, to: {table, column}}\<close>.\<close>

record endpoint =
  ep_table :: string
  ep_column :: string

record connection =
  conn_from :: endpoint
  conn_to :: endpoint

text \<open>The \<open>transform\<close> state: \<open>{x, y, scale}\<close>.\<close>

record transform =
  tr_x :: real
  tr_y :: real
  tr_scale :: real

subsection \<open>Expand and collapse: \<open>toggleTable\<close>\<close>

text \<open>
  The updater passed to \<open>setExpandedTables\<close>: \<open>prev.includes(tableId) ?
  prev.filter(id => id !== tableId) : [...prev, tableId]\<close>.
\<close>

definition toggleTable :: "string \<Rightarrow> string list \<Rightarrow> string list" where
  "toggleTable tableId prev =
     (let isExpanded = tableId \<in> set prev
      in if isExpanded then filter (\<lambda>i. i \<noteq> tableId) prev else prev @ [tableId])"

subsection \<open>Node geometry and the bounds loop\<close>

text \<open>
  \<open>expandedTables.includes(table.id) ? Math.max(120, (table.columns?.length || 0) * 20 + 60) : 80\<close>
\<close>

definition columnCount :: "table \<Rightarrow> nat" where
  "columnCount t = (case columns t of None \<Rightarrow> 0 | Some cs \<Rightarrow> length cs)"

definition tableHeight :: "string list \<Rightarrow> table \<Rightarrow> real" where
  "tableHeight expandedTables t =
     (if table_id t \<in> set expandedTables
      then max 120 (real (columnCount t) * 20 + 60)
      else 80)"

record bounds =
  minX :: jsnum
  minY :: jsnum
  maxX :: jsnum
  maxY :: jsnum

text \<open>\<open>let minX = Infinity, minY = Infinity, maxX = -Infinity, maxY = -Infinity\<close>\<close>

definition initBounds :: bounds where
  "initBounds = \<lparr>minX = PInf, minY = PInf, maxX = NInf, maxY = NInf\<rparr>"

text \<open>One iteration of the \<open>tables.forEach\<close> body; a table without position is skipped.\<close>

definition boundsStep :: "string list \<Rightarrow> bounds \<Rightarrow> table \<Rightarrow> bounds" where
  "boundsStep expandedTables b t =
     (case position t of
        None \<Rightarrow> b
      | Some (x, y) \<Rightarrow>
          let width = 240;
              height = tableHeight expandedTables t
          in \<lparr>minX = js_min (minX b) (Fin x),
              minY = js_min (minY b) (Fin y),
              maxX = js_max (maxX b) (Fin (x + width)),
              maxY = js_max (maxY b) (Fin (y + height))\<rparr>)"

definition boundsLoop :: "string list \<Rightarrow> table list \<Rightarrow> bounds" where
  "boundsLoop expandedTables tables = foldl (boundsStep expandedTables) initBounds tables"

subsection \<open>\<open>getContentBounds\<close>\<close>

record contentBounds =
  cb_minX :: jsnum
  cb_minY :: jsnum
  cb_maxX :: jsnum
  cb_maxY :: jsnum
  cb_width :: jsnum
  cb_height :: jsnum

definition defaultBounds :: contentBounds where
  "defaultBounds =
     \<lparr>cb_minX = Fin 0, cb_minY = Fin 0, cb_maxX = Fin 800, cb_maxY = Fin 600,
      cb_width = Fin 800, cb_height = Fin 600\<rparr>"

definition getContentBounds :: "string list \<Rightarrow> table list \<Rightarrow> contentBounds" where
  "getContentBounds expandedTables tables =
     (if tables = [] then defaultBounds
      else
        let b = boundsLoop expandedTables tables;
            padding = Fin 100
        in \<lparr>cb_minX = js_sub (minX b) padding,
            cb_minY = js_sub (minY b) padding,
            cb_maxX = js_add (maxX b) padding,
            cb_maxY = js_add (maxY b) padding,
            cb_width = js_add (js_sub (maxX b) (minX b)) (Fin (100 * 2)),
            cb_height = js_add (js_sub (maxY b) (minY b)) (Fin (100 * 2))\<rparr>)"

subsection \<open>\<open>fitToView\<close>\<close>

text \<open>
  The arithmetic of \<open>fitToView\<close> after its guards, on finite bounds: the container
  size, then \<open>minX\<close>, \<open>minY\<close>, \<open>maxX\<close>, \<open>maxY\<close>. The two divisions are by
  \<open>contentWidth\<close> and \<open>contentHeight\<close>; division in HOL and in JavaScript agree
  where the divisor is not zero, which is the case here (see C9 below).
\<close>

definition fitContentWidth :: "real \<Rightarrow> real \<Rightarrow> real" where
  "fitContentWidth mnX mxX = mxX - mnX"

definition fitContentHeight :: "real \<Rightarrow> real \<Rightarrow> real" where
  "fitContentHeight mnY mxY = mxY - mnY"

definition fitScaleRatio :: "real \<Rightarrow> real \<Rightarrow> real \<Rightarrow> real \<Rightarrow> real \<Rightarrow> real \<Rightarrow> real" where
  "fitScaleRatio containerWidth containerHeight mnX mnY mxX mxY =
     (let contentWidth = fitContentWidth mnX mxX;
          contentHeight = fitContentHeight mnY mxY;
          padding = 60;
          availableWidth = containerWidth - padding * 2;
          availableHeight = containerHeight - padding * 2;
          scaleX = availableWidth / contentWidth;
          scaleY = availableHeight / contentHeight
      in min scaleX scaleY)"

definition fitTransform :: "real \<Rightarrow> real \<Rightarrow> real \<Rightarrow> real \<Rightarrow> real \<Rightarrow> real \<Rightarrow> transform" where
  "fitTransform containerWidth containerHeight mnX mnY mxX mxY =
     (let contentWidth = fitContentWidth mnX mxX;
          contentHeight = fitContentHeight mnY mxY;
          padding = 60;
          optimalScale = max 0.15 (min (fitScaleRatio containerWidth containerHeight mnX mnY mxX mxY) 0.9);
          scaledContentWidth = contentWidth * optimalScale;
          scaledContentHeight = contentHeight * optimalScale;
          x = (containerWidth - scaledContentWidth) / 2 - mnX * optimalScale;
          y = (containerHeight - scaledContentHeight) / 2 - mnY * optimalScale;
          finalX = max x (padding - mnX * optimalScale);
          finalY = max y (padding - mnY * optimalScale)
      in \<lparr>tr_x = finalX, tr_y = finalY, tr_scale = optimalScale\<rparr>)"

text \<open>
  \<open>fitToView\<close> itself. The second argument is the size of \<open>svgRef.current\<close>'s
  bounding rectangle, \<open>None\<close> when the ref is not attached. The result is the argument
  of \<open>setTransform\<close>, \<open>None\<close> where the function returns without calling it. The
  guard \<open>minX === Infinity\<close> is the constructor test on \<open>minX\<close>; the other three
  bounds are finite whenever \<open>minX\<close> is (lemma \<open>boundsLoop_cases\<close>), so the last case
  is not reached.
\<close>

definition fitToView ::
  "string list \<Rightarrow> table list \<Rightarrow> (real \<times> real) option \<Rightarrow> transform option" where
  "fitToView expandedTables tables svg =
     (case svg of
        None \<Rightarrow> None
      | Some (containerWidth, containerHeight) \<Rightarrow>
          if tables = [] then None
          else if containerWidth = 0 \<or> containerHeight = 0 then None
          else
            let b = boundsLoop expandedTables tables
            in if minX b = PInf then None
               else (case (minX b, minY b, maxX b, maxY b) of
                       (Fin mnX, Fin mnY, Fin mxX, Fin mxY) \<Rightarrow>
                         Some (fitTransform containerWidth containerHeight mnX mnY mxX mxY)
                     | _ \<Rightarrow> None))"

subsection \<open>Pan and zoom handlers\<close>

text \<open>\<open>handleWheel\<close>: the pointer position relative to the svg, and \<open>e.deltaY\<close>.\<close>

definition handleWheel :: "transform \<Rightarrow> real \<Rightarrow> real \<Rightarrow> real \<Rightarrow> transform" where
  "handleWheel t mouseX mouseY deltaY =
     (let delta = - deltaY / 1000;
          scaleFactor = exp delta;
          newScale = max 0.1 (min 3 (tr_scale t * scaleFactor));
          scaleRatio = newScale / tr_scale t;
          newX = tr_x t - (mouseX - tr_x t) * (scaleRatio - 1);
          newY = tr_y t - (mouseY - tr_y t) * (scaleRatio - 1)
      in \<lparr>tr_x = newX, tr_y = newY, tr_scale = newScale\<rparr>)"

text \<open>
  \<open>zoomIn\<close> and \<open>zoomOut\<close>: \<open>rect\<close> is the svg's bounding rectangle size, \<open>None\<close>
  when \<open>svgRef.current\<close> is not set, in which case the transform is left as it is.
\<close>

definition zoomIn :: "transform \<Rightarrow> (real \<times> real) option \<Rightarrow> transform" where
  "zoomIn t rect =
     (let newScale = min 3 (tr_scale t * 1.3)
      in case rect of
           None \<Rightarrow> t
         | Some (width, height) \<Rightarrow>
             let centerX = width / 2;
                 centerY = height / 2;
                 scaleRatio = newScale / tr_scale t
             in \<lparr>tr_x = tr_x t - (centerX - tr_x t) * (scaleRatio - 1),
                 tr_y = tr_y t - (centerY - tr_y t) * (scaleRatio - 1),
                 tr_scale = newScale\<rparr>)"

definition zoomOut :: "transform \<Rightarrow> (real \<times> real) option \<Rightarrow> transform" where
  "zoomOut t rect =
     (let newScale = max 0.1 (tr_scale t / 1.3)
      in case rect of
           None \<Rightarrow> t
         | Some (width, height) \<Rightarrow>
             let centerX = width / 2;
                 centerY = height / 2;
                 scaleRatio = newScale / tr_scale t
             in \<lparr>tr_x = tr_x t - (centerX - tr_x t) * (scaleRatio - 1),
                 tr_y = tr_y t - (centerY - tr_y t) * (scaleRatio - 1),
                 tr_scale = newScale\<rparr>)"

definition resetView :: transform where
  "resetView = \<lparr>tr_x = 0, tr_y = 0, tr_scale = 1\<rparr>"

text \<open>
  The svg group carries \<open>translate(x, y) scale(scale)\<close>: a content point is scaled,
  then translated.
\<close>

definition contentToScreen :: "transform \<Rightarrow> real \<times> real \<Rightarrow> real \<times> real" where
  "contentToScreen t p = (fst p * tr_scale t + tr_x t, snd p * tr_scale t + tr_y t)"

definition screenToContent :: "transform \<Rightarrow> real \<times> real \<Rightarrow> real \<times> real" where
  "screenToContent t s = ((fst s - tr_x t) / tr_scale t, (snd s - tr_y t) / tr_scale t)"

subsection \<open>Rendering the connections and the table boxes\<close>

datatype js_error = TypeError

text \<open>
  \<open>getConnectionPath\<close> builds the string \<open>M fromX fromY C controlX1 fromY controlX2 toY toX toY\<close>;
  the model keeps its numbers. Reading \<open>fromTable.position.x\<close> of a table without
  position throws a TypeError.
\<close>

record path =
  p_fromX :: real
  p_fromY :: real
  p_controlX1 :: real
  p_controlX2 :: real
  p_toX :: real
  p_toY :: real

definition getConnectionPath :: "table \<Rightarrow> table \<Rightarrow> js_error + path" where
  "getConnectionPath fromTable toTable =
     (case position fromTable of
        None \<Rightarrow> Inl TypeError
      | Some (fx, fy) \<Rightarrow>
          (case position toTable of
             None \<Rightarrow> Inl TypeError
           | Some (tx, ty) \<Rightarrow>
               let fromX = fx + 240;
                   fromY = fy + 40;
                   toX = tx;
                   toY = ty + 40;
                   distance = \<bar>toX - fromX\<bar>;
                   controlOffset = min (max (distance * 0.4) 80) 200;
                   controlX1 = fromX + controlOffset;
                   controlX2 = toX - controlOffset
               in Inr \<lparr>p_fromX = fromX, p_fromY = fromY, p_controlX1 = controlX1,
                       p_controlX2 = controlX2, p_toX = toX, p_toY = toY\<rparr>))"

text \<open>What is drawn for one connection: its path and the highlight flag.\<close>

record drawn =
  d_path :: path
  d_highlighted :: bool

text \<open>
  The body of \<open>lineageData.connections.map\<close>: \<open>Inr None\<close> is the \<open>return null\<close>
  of a connection whose table is not found, \<open>Inl\<close> an exception.
\<close>

definition renderConnection ::
  "table list \<Rightarrow> string \<Rightarrow> connection \<Rightarrow> js_error + drawn option" where
  "renderConnection tbls selectedColumn conn =
     (let fromTable = find (\<lambda>t. table_id t = ep_table (conn_from conn)) tbls;
          toTable = find (\<lambda>t. table_id t = ep_table (conn_to conn)) tbls
      in case (fromTable, toTable) of
           (Some ft, Some tt) \<Rightarrow>
             (let isHighlighted = (ep_column (conn_from conn) = selectedColumn
                                   \<or> ep_column (conn_to conn) = selectedColumn)
              in case getConnectionPath ft tt of
                   Inl e \<Rightarrow> Inl e
                 | Inr p \<Rightarrow> Inr (Some \<lparr>d_path = p, d_highlighted = isHighlighted\<rparr>))
         | _ \<Rightarrow> Inr None)"

text \<open>
  The whole \<open>map\<close>: the list of results in order, or the first exception, which aborts
  the render.
\<close>

fun renderConnections ::
  "table list \<Rightarrow> string \<Rightarrow> connection list \<Rightarrow> js_error + drawn option list" where
  "renderConnections tbls selectedColumn [] = Inr []"
| "renderConnections tbls selectedColumn (c # cs) =
     (case renderConnection tbls selectedColumn c of
        Inl e \<Rightarrow> Inl e
      | Inr r \<Rightarrow>
          (case renderConnections tbls selectedColumn cs of
             Inl e \<Rightarrow> Inl e
           | Inr rs \<Rightarrow> Inr (r # rs)))"

text \<open>
  The box drawn for a table in \<open>lineageData.tables.map\<close>: \<open>x\<close>, \<open>y\<close>, width 240 and
  the height; a table without position is not drawn.
\<close>

definition tableBox :: "string list \<Rightarrow> table \<Rightarrow> (real \<times> real \<times> real \<times> real) option" where
  "tableBox expandedTables t =
     (case position t of
        None \<Rightarrow> None
      | Some (x, y) \<Rightarrow> Some (x, y, 240, tableHeight expandedTables t))"

text \<open>
  \<open>isColumnHighlighted\<close>: some connection has \<open>(tableId, column)\<close> as an endpoint,
  and the column is the selected one.
\<close>

definition isColumnHighlighted :: "connection list \<Rightarrow> string \<Rightarrow> string \<Rightarrow> string \<Rightarrow> bool" where
  "isColumnHighlighted connections selectedColumn tableId column =
     (list_ex (\<lambda>conn.
        (ep_table (conn_from conn) = tableId \<and> ep_column (conn_from conn) = column) \<or>
        (ep_table (conn_to conn) = tableId \<and> ep_column (conn_to conn) = column)) connections
      \<and> column = selectedColumn)"

text \<open>
  What \<open>lineageData.tables.map\<close> draws for a table: the box, the expand flag and,
  when expanded, one row per column with its highlight flag. A table without position is
  not drawn.
\<close>

record drawnTable =
  dt_box :: "real \<times> real \<times> real \<times> real"
  dt_expanded :: bool
  dt_rows :: "(string \<times> bool) list"

definition renderTable ::
  "string list \<Rightarrow> connection list \<Rightarrow> string \<Rightarrow> table \<Rightarrow> drawnTable option" where
  "renderTable expandedTables connections selectedColumn t =
     (case position t of
        None \<Rightarrow> None
      | Some (x, y) \<Rightarrow>
          let isExpanded = table_id t \<in> set expandedTables
          in Some \<lparr>dt_box = (x, y, 240, tableHeight expandedTables t),
                   dt_expanded = isExpanded,
                   dt_rows = (if isExpanded
                      then map (\<lambda>column. (column,
                                  isColumnHighlighted connections selectedColumn (table_id t) column))
                             (case columns t of None \<Rightarrow> [] | Some cs \<Rightarrow> cs)
                      else [])\<rparr>)"

text \<open>
  The content of the transformed svg group: the connections first, then the tables. An
  exception in the connection layer aborts the render.
\<close>

definition renderScene ::
  "string list \<Rightarrow> table list \<Rightarrow> connection list \<Rightarrow> string
     \<Rightarrow> js_error + (drawn option list \<times> drawnTable option list)" where
  "renderScene expandedTables tbls connections selectedColumn =
     (case renderConnections tbls selectedColumn connections of
        Inl e \<Rightarrow> Inl e
      | Inr ds \<Rightarrow> Inr (ds, map (renderTable expandedTables connections selectedColumn) tbls))"

subsection \<open>The component state and its events\<close>

record state =
  transform :: transform
  isDragging :: bool
  dragStart :: "real \<times> real"
  transformStart :: "real \<times> real"
  expandedTables :: "string list"
  tables :: "table list"

definition initialState :: state where
  "initialState =
     \<lparr>transform = \<lparr>tr_x = 0, tr_y = 0, tr_scale = 1\<rparr>,
      isDragging = False,
      dragStart = (0, 0),
      transformStart = (0, 0),
      expandedTables = [],
      tables = []\<rparr>"

text \<open>
  Input events. Pointer positions are relative to the svg (\<open>e.clientX - rect.left\<close>);
  \<open>MouseDown\<close> carries \<open>e.button\<close>; the zoom buttons and the fit carry the svg's size
  at the time of the call. A call of \<open>fitToView\<close> comes from a timer or a click and reads
  the \<open>expandedTables\<close> of the render its closure was created in and the table list it
  is passed, so the event carries both. \<open>DataLoaded\<close> is a successful fetch:
  \<open>setLineageData\<close>, and all tables expanded when there are any.
\<close>

datatype event =
    MouseDown nat real real
  | MouseMove real real
  | MouseUp
  | Wheel real real real
  | ZoomIn "(real \<times> real) option"
  | ZoomOut "(real \<times> real) option"
  | FitToView "string list" "table list" "(real \<times> real) option"
  | ResetView
  | ToggleTable string
  | DataLoaded "table list"

fun step :: "state \<Rightarrow> event \<Rightarrow> state" where
  "step s (MouseDown button px py) =
     (if button = 0
      then s\<lparr>isDragging := True, dragStart := (px, py),
             transformStart := (tr_x (transform s), tr_y (transform s))\<rparr>
      else s)"
| "step s (MouseMove currentX currentY) =
     (if isDragging s
      then let deltaX = currentX - fst (dragStart s);
               deltaY = currentY - snd (dragStart s)
           in s\<lparr>transform := (transform s)\<lparr>tr_x := fst (transformStart s) + deltaX,
                                              tr_y := snd (transformStart s) + deltaY\<rparr>\<rparr>
      else s)"
| "step s MouseUp = s\<lparr>isDragging := False\<rparr>"
| "step s (Wheel mouseX mouseY deltaY) =
     s\<lparr>transform := handleWheel (transform s) mouseX mouseY deltaY\<rparr>"
| "step s (ZoomIn rect) = s\<lparr>transform := zoomIn (transform s) rect\<rparr>"
| "step s (ZoomOut rect) = s\<lparr>transform := zoomOut (transform s) rect\<rparr>"
| "step s (FitToView closedExpanded tbls svg) =
     (case fitToView closedExpanded tbls svg of
        None \<Rightarrow> s
      | Some t \<Rightarrow> s\<lparr>transform := t\<rparr>)"
| "step s ResetView = s\<lparr>transform := resetView\<rparr>"
| "step s (ToggleTable tableId) =
     s\<lparr>expandedTables := toggleTable tableId (expandedTables s)\<rparr>"
| "step s (DataLoaded ts) =
     (if ts = [] then s\<lparr>tables := ts\<rparr>
      else s\<lparr>tables := ts, expandedTables := map table_id ts\<rparr>)"

definition run :: "event list \<Rightarrow> state" where
  "run evs = foldl step initialState evs"

subsection \<open>Auxiliary predicates and example data\<close>

text \<open>The finite bounds \<open>a, b, c, d\<close> cover the box of every table that has a position.\<close>

definition boundsCover :: "string list \<Rightarrow> table list \<Rightarrow> real \<Rightarrow> real \<Rightarrow> real \<Rightarrow> real \<Rightarrow> bool" where
  "boundsCover ex ts a b c d =
     (\<forall>t \<in> set ts. \<forall>x y. position t = Some (x, y) \<longrightarrow>
        a \<le> x \<and> x + 240 \<le> c \<and> b \<le> y \<and> y + tableHeight ex t \<le> d)"

text \<open>
  A content-space box \<open>(x, y, width, height)\<close>, mapped to the screen by a transform, lies
  inside the viewport shrunk by the 60-pixel fit margin on every side.
\<close>

definition boxInsideMargin :: "real \<Rightarrow> real \<Rightarrow> transform \<Rightarrow> real \<times> real \<times> real \<times> real \<Rightarrow> bool" where
  "boxInsideMargin viewportWidth viewportHeight t box =
     (case box of (x, y, w, h) \<Rightarrow>
        60 \<le> fst (contentToScreen t (x, y)) \<and>
        fst (contentToScreen t (x + w, y + h)) \<le> viewportWidth - 60 \<and>
        60 \<le> snd (contentToScreen t (x, y)) \<and>
        snd (contentToScreen t (x + w, y + h)) \<le> viewportHeight - 60)"

text \<open>The scale range of the viewport.\<close>

definition scaleInRange :: "transform \<Rightarrow> bool" where
  "scaleInRange t = (0.1 \<le> tr_scale t \<and> tr_scale t \<le> 3)"

text \<open>A table with a position and one without.\<close>

definition t_orders :: table where
  "t_orders = \<lparr>table_id = ''orders'', position = Some (0, 0), columns = Some [''id'', ''total'']\<rparr>"

definition t_nopos :: table where
  "t_nopos = \<lparr>table_id = ''stale'', position = None, columns = Some [''id'']\<rparr>"

text \<open>A second table 400 to the right (both collapsed: Scenario A), and one far away.\<close>

definition t_items :: table where
  "t_items = \<lparr>table_id = ''items'', position = Some (400, 0), columns = Some [''id'']\<rparr>"

definition t_far :: table where
  "t_far = \<lparr>table_id = ''archive'', position = Some (10000, 0), columns = Some [''id'']\<rparr>"

text \<open>A table with thirteen columns: 80 high when collapsed, 320 when expanded.\<close>

definition t_wide :: table where
  "t_wide = \<lparr>table_id = ''wide'', position = Some (0, 0),
     columns = Some [''c01'', ''c02'', ''c03'', ''c04'', ''c05'', ''c06'', ''c07'', ''c08'',
                     ''c09'', ''c10'', ''c11'', ''c12'', ''c13'']\<rparr>"

text \<open>Scenario B: two tables and a connection between their \<open>col_a\<close> columns; a connection to a table that does not exist.\<close>

definition t_table1 :: table where
  "t_table1 = \<lparr>table_id = ''table1'', position = Some (0, 0), columns = Some [''col_a'', ''col_b'']\<rparr>"

definition t_table2 :: table where
  "t_table2 = \<lparr>table_id = ''table2'', position = Some (400, 0), columns = Some [''col_a'']\<rparr>"

definition conn_a :: connection where
  "conn_a = \<lparr>conn_from = \<lparr>ep_table = ''table1'', ep_column = ''col_a''\<rparr>,
              conn_to = \<lparr>ep_table = ''table2'', ep_column = ''col_a''\<rparr>\<rparr>"

definition conn_missing :: connection where
  "conn_missing = \<lparr>conn_from = \<lparr>ep_table = ''table1'', ep_column = ''col_a''\<rparr>,
                    conn_to = \<lparr>ep_table = ''missing'', ep_column = ''col_a''\<rparr>\<rparr>"

definition path_a :: path where
  "path_a = \<lparr>p_fromX = 240, p_fromY = 40, p_controlX1 = 320, p_controlX2 = 320,
              p_toX = 400, p_toY = 40\<rparr>"

section \<open>Properties\<close>

subsection \<open>Expanded set\<close>

lemma toggleTable_set:
  "set (toggleTable i xs) = (if i \<in> set xs then set xs - {i} else insert i (set xs))"
  by (auto simp: toggleTable_def)

text \<open>
  C8. Toggling the same table id twice gives back the membership the expanded list had:
  an id is in the list after the two toggles exactly when it was in it before.
\<close>

theorem toggleTable_twice_membership:
  "(j \<in> set (toggleTable i (toggleTable i xs))) = (j \<in> set xs)"
  by (auto simp: toggleTable_set)

text \<open>
  C10. Toggling keeps the expanded list free of duplicates: removal filters the id out,
  insertion appends it only when it is absent.
\<close>

theorem toggleTable_distinct:
  "distinct xs \<Longrightarrow> distinct (toggleTable i xs)"
  by (auto simp: toggleTable_def)

theorem toggleTable_distinct_witness:
  "distinct [''orders'', ''customers''] \<and>
   distinct (toggleTable ''orders'' [''orders'', ''customers'']) \<and>
   distinct (toggleTable ''items'' [''orders'', ''customers''])"
  using toggleTable_distinct [of "[''orders'', ''customers'']" "''orders''"]
        toggleTable_distinct [of "[''orders'', ''customers'']" "''items''"]
  by simp

subsection \<open>The bounds loop\<close>

lemma tableHeight_ge_80: "80 \<le> tableHeight ex t"
  by (simp add: tableHeight_def le_max_iff_disj)

lemma boundsLoop_snoc:
  "boundsLoop ex (ts @ [t]) = boundsStep ex (boundsLoop ex ts) t"
  by (simp add: boundsLoop_def)

lemma boundsLoop_cases:
  "(boundsLoop ex ts = initBounds \<and> (\<forall>t \<in> set ts. position t = None)) \<or>
   (\<exists>a b c d. boundsLoop ex ts = \<lparr>minX = Fin a, minY = Fin b, maxX = Fin c, maxY = Fin d\<rparr>
      \<and> (\<exists>t \<in> set ts. position t \<noteq> None)
      \<and> boundsCover ex ts a b c d \<and> 240 \<le> c - a \<and> 80 \<le> d - b)"
proof (induction ts rule: rev_induct)
  case Nil
  show ?case by (simp add: boundsLoop_def)
next
  case (snoc t ts)
  show ?case
  proof (cases "position t")
    case None
    then have "boundsLoop ex (ts @ [t]) = boundsLoop ex ts"
      by (simp add: boundsLoop_snoc boundsStep_def)
    with snoc None show ?thesis
      by (auto simp: boundsCover_def)
  next
    case (Some p)
    obtain x y where p: "p = (x, y)" by (cases p)
    have h: "80 \<le> tableHeight ex t" by (rule tableHeight_ge_80)
    from snoc show ?thesis
    proof
      assume "boundsLoop ex ts = initBounds \<and> (\<forall>t \<in> set ts. position t = None)"
      then have "boundsLoop ex (ts @ [t]) =
          \<lparr>minX = Fin x, minY = Fin y, maxX = Fin (x + 240), maxY = Fin (y + tableHeight ex t)\<rparr>"
        and "boundsCover ex (ts @ [t]) x y (x + 240) (y + tableHeight ex t)"
        using Some p by (auto simp: boundsLoop_snoc boundsStep_def initBounds_def boundsCover_def)
      with Some h show ?thesis by auto
    next
      assume "\<exists>a b c d. boundsLoop ex ts = \<lparr>minX = Fin a, minY = Fin b, maxX = Fin c, maxY = Fin d\<rparr>
      \<and> (\<exists>t \<in> set ts. position t \<noteq> None)
      \<and> boundsCover ex ts a b c d \<and> 240 \<le> c - a \<and> 80 \<le> d - b"
      then obtain a b c d where
        eq: "boundsLoop ex ts = \<lparr>minX = Fin a, minY = Fin b, maxX = Fin c, maxY = Fin d\<rparr>"
        and cov: "boundsCover ex ts a b c d" and w: "240 \<le> c - a" and hh: "80 \<le> d - b"
        by blast
      have eq': "boundsLoop ex (ts @ [t]) =
          \<lparr>minX = Fin (min a x), minY = Fin (min b y), maxX = Fin (max c (x + 240)),
           maxY = Fin (max d (y + tableHeight ex t))\<rparr>"
        using Some p eq by (simp add: boundsLoop_snoc boundsStep_def)
      have cov': "boundsCover ex (ts @ [t]) (min a x) (min b y) (max c (x + 240))
           (max d (y + tableHeight ex t))"
        using cov Some p by (fastforce simp: boundsCover_def)
      have "240 \<le> max c (x + 240) - min a x" "80 \<le> max d (y + tableHeight ex t) - min b y"
        using w hh by linarith+
      with eq' cov' Some show ?thesis by auto
    qed
  qed
qed

lemma boundsLoop_no_position:
  "(\<forall>t \<in> set ts. position t = None) \<Longrightarrow> boundsLoop ex ts = initBounds"
  using boundsLoop_cases [of ex ts] by auto

lemma boundsLoop_some_position:
  assumes "\<exists>t \<in> set ts. position t \<noteq> None"
  shows "\<exists>a b c d. boundsLoop ex ts = \<lparr>minX = Fin a, minY = Fin b, maxX = Fin c, maxY = Fin d\<rparr>
      \<and> boundsCover ex ts a b c d \<and> 240 \<le> c - a \<and> 80 \<le> d - b"
  using boundsLoop_cases [of ex ts] assms by auto

lemma fitToView_finite:
  assumes "boundsLoop ex ts = \<lparr>minX = Fin a, minY = Fin b, maxX = Fin c, maxY = Fin d\<rparr>"
    and "w \<noteq> 0" and "h \<noteq> 0"
  shows "fitToView ex ts (Some (w, h)) = Some (fitTransform w h a b c d)"
proof -
  have "ts \<noteq> []"
    using assms(1) by (auto simp: boundsLoop_def initBounds_def)
  then show ?thesis
    using assms by (simp add: fitToView_def)
qed

lemma fitToView_no_position:
  assumes "\<forall>t \<in> set ts. position t = None"
  shows "fitToView ex ts svg = None"
  using boundsLoop_no_position [OF assms, of ex]
  by (auto simp: fitToView_def initBounds_def split: option.splits)

text \<open>
  C9. \<open>fitToView\<close> never divides by zero. When some table has a position the loop
  ends with finite bounds whose content width is at least the node width 240 and whose
  content height is at least the collapsed height 80, so both divisors are positive, and
  the fit is computed from them; when no table has a position \<open>fitToView\<close> returns
  before the division, without setting a transform.
\<close>

theorem fitToView_divisors_positive:
  "((\<exists>t \<in> set ts. position t \<noteq> None) \<longrightarrow>
      (\<exists>a b c d. boundsLoop ex ts = \<lparr>minX = Fin a, minY = Fin b, maxX = Fin c, maxY = Fin d\<rparr>
         \<and> 240 \<le> fitContentWidth a c \<and> 80 \<le> fitContentHeight b d
         \<and> 0 < fitContentWidth a c \<and> 0 < fitContentHeight b d
         \<and> (\<forall>w h. w \<noteq> 0 \<and> h \<noteq> 0 \<longrightarrow>
               fitToView ex ts (Some (w, h)) = Some (fitTransform w h a b c d))))
   \<and> ((\<forall>t \<in> set ts. position t = None) \<longrightarrow> fitToView ex ts svg = None)"
proof (intro conjI impI)
  assume "\<exists>t \<in> set ts. position t \<noteq> None"
  from boundsLoop_some_position [OF this, of ex]
  obtain a b c d where
    eq: "boundsLoop ex ts = \<lparr>minX = Fin a, minY = Fin b, maxX = Fin c, maxY = Fin d\<rparr>"
    and w: "240 \<le> c - a" and h: "80 \<le> d - b"
    by blast
  have "\<forall>w h. w \<noteq> 0 \<and> h \<noteq> 0 \<longrightarrow>
               fitToView ex ts (Some (w, h)) = Some (fitTransform w h a b c d)"
    using fitToView_finite [OF eq] by blast
  with eq w h show "\<exists>a b c d. boundsLoop ex ts = \<lparr>minX = Fin a, minY = Fin b, maxX = Fin c, maxY = Fin d\<rparr>
         \<and> 240 \<le> fitContentWidth a c \<and> 80 \<le> fitContentHeight b d
         \<and> 0 < fitContentWidth a c \<and> 0 < fitContentHeight b d
         \<and> (\<forall>w h. w \<noteq> 0 \<and> h \<noteq> 0 \<longrightarrow>
               fitToView ex ts (Some (w, h)) = Some (fitTransform w h a b c d))"
    by (auto simp: fitContentWidth_def fitContentHeight_def)
next
  assume "\<forall>t \<in> set ts. position t = None"
  then show "fitToView ex ts svg = None" by (rule fitToView_no_position)
qed

theorem fitToView_divisors_positive_witness:
  "position t_orders \<noteq> None
   \<and> boundsLoop [] [t_orders] = \<lparr>minX = Fin 0, minY = Fin 0, maxX = Fin 240, maxY = Fin 80\<rparr>
   \<and> 240 \<le> fitContentWidth 0 240 \<and> 80 \<le> fitContentHeight 0 80
   \<and> (\<exists>a b c d. fitToView [] [t_orders] (Some (800, 600)) = Some (fitTransform 800 600 a b c d)
         \<and> 0 < fitContentWidth a c \<and> 0 < fitContentHeight b d)
   \<and> position t_nopos = None
   \<and> fitToView [] [t_nopos] (Some (800, 600)) = None"
proof -
  have p: "\<exists>t \<in> set [t_orders]. position t \<noteq> None"
    and n: "\<forall>t \<in> set [t_nopos]. position t = None"
    by (simp_all add: t_orders_def t_nopos_def)
  have b: "boundsLoop [] [t_orders] = \<lparr>minX = Fin 0, minY = Fin 0, maxX = Fin 240, maxY = Fin 80\<rparr>"
    by (simp add: boundsLoop_def boundsStep_def initBounds_def t_orders_def tableHeight_def)
  from fitToView_divisors_positive [of "[t_orders]" "[]" "Some (800, 600)"] p
  obtain a b c d where
    "fitToView [] [t_orders] (Some (800, 600)) = Some (fitTransform 800 600 a b c d)"
    "0 < fitContentWidth a c" "0 < fitContentHeight b d"
    by fastforce
  then have e: "\<exists>a b c d. fitToView [] [t_orders] (Some (800, 600)) = Some (fitTransform 800 600 a b c d)
         \<and> 0 < fitContentWidth a c \<and> 0 < fitContentHeight b d"
    by blast
  have f: "fitToView [] [t_nopos] (Some (800, 600)) = None"
    using fitToView_divisors_positive [of "[t_nopos]" "[]" "Some (800, 600)"] n by blast
  show ?thesis
    using b e f by (simp add: t_orders_def t_nopos_def fitContentWidth_def fitContentHeight_def)
qed

text \<open>
  C5. \<open>getContentBounds\<close> on a non-empty list whose tables all lack a position:
  the loop leaves the infinities in place and the result is not the default rectangle;
  its width and height are \<open>-Infinity\<close>.
\<close>

theorem getContentBounds_without_positions:
  "getContentBounds [] [t_nopos] =
     \<lparr>cb_minX = PInf, cb_minY = PInf, cb_maxX = NInf, cb_maxY = NInf,
      cb_width = NInf, cb_height = NInf\<rparr>
   \<and> getContentBounds [] [t_nopos] \<noteq> defaultBounds"
  by (simp add: getContentBounds_def boundsLoop_def boundsStep_def initBounds_def
      t_nopos_def js_sub_def defaultBounds_def)

subsection \<open>The scale invariant and the zoom anchor\<close>

lemma handleWheel_scale:
  "tr_scale (handleWheel t mouseX mouseY deltaY) =
     max 0.1 (min 3 (tr_scale t * exp (- deltaY / 1000)))"
  by (simp add: handleWheel_def Let_def)

lemma handleWheel_inRange: "scaleInRange (handleWheel t mx my dy)"
  by (simp add: scaleInRange_def handleWheel_scale)

lemma zoomIn_inRange: "scaleInRange t \<Longrightarrow> scaleInRange (zoomIn t rect)"
  by (auto simp: scaleInRange_def zoomIn_def Let_def split: option.splits)

lemma zoomOut_inRange: "scaleInRange t \<Longrightarrow> scaleInRange (zoomOut t rect)"
  by (auto simp: scaleInRange_def zoomOut_def Let_def split: option.splits)

lemma fitTransform_scale:
  "0.15 \<le> tr_scale (fitTransform w h a b c d) \<and> tr_scale (fitTransform w h a b c d) \<le> 0.9"
  by (simp add: fitTransform_def Let_def)

lemma fitToView_inRange:
  assumes "fitToView ex ts svg = Some t"
  shows "scaleInRange t"
proof -
  from assms obtain w h a b c d where "t = fitTransform w h a b c d"
    by (auto simp: fitToView_def Let_def split: option.splits if_splits jsnum.splits)
  then show ?thesis
    using fitTransform_scale [of w h a b c d] by (simp add: scaleInRange_def)
qed

lemma step_inRange:
  assumes "scaleInRange (transform s)"
  shows "scaleInRange (transform (step s ev))"
proof (cases ev)
  case (MouseDown button px py)
  then show ?thesis using assms by simp
next
  case (MouseMove cx cy)
  then show ?thesis using assms by (simp add: scaleInRange_def Let_def)
next
  case MouseUp
  then show ?thesis using assms by simp
next
  case (Wheel mx my dy)
  then show ?thesis by (simp add: handleWheel_inRange)
next
  case (ZoomIn rect)
  then show ?thesis using assms by (simp add: zoomIn_inRange)
next
  case (ZoomOut rect)
  then show ?thesis using assms by (simp add: zoomOut_inRange)
next
  case (FitToView closedExpanded tbls svg)
  then show ?thesis
    using assms fitToView_inRange [of closedExpanded tbls svg]
    by (auto split: option.splits)
next
  case ResetView
  then show ?thesis by (simp add: scaleInRange_def resetView_def)
next
  case (ToggleTable i)
  then show ?thesis using assms by simp
next
  case (DataLoaded ts)
  then show ?thesis using assms by simp
qed

lemma run_snoc: "run (evs @ [ev]) = step (run evs) ev"
  by (simp add: run_def)

lemma run_inRange: "scaleInRange (transform (run evs))"
proof (induction evs rule: rev_induct)
  case Nil
  show ?case by (simp add: run_def initialState_def scaleInRange_def)
next
  case (snoc ev evs)
  then show ?case by (simp add: run_snoc step_inRange)
qed

text \<open>
  C1. In every state reached from the initial transform \<open>{x: 0, y: 0, scale: 1}\<close> by
  any sequence of events (wheel zooms, zoom-in and zoom-out clicks, mouse down, move and up,
  fit-to-view calls, resets, toggles, data loads), the scale lies between 0.1 and 3.
\<close>

theorem scale_invariant:
  "0.1 \<le> tr_scale (transform (run evs)) \<and> tr_scale (transform (run evs)) \<le> 3"
  using run_inRange [of evs] by (simp add: scaleInRange_def)

text \<open>
  C3. Zoom-anchor invariance of the wheel handler: for a transform with scale in
  \<open>[0.1, 3]\<close> and a wheel event at screen point \<open>(mouseX, mouseY)\<close>, the content point
  that was under the pointer is mapped to the pointer again by the new transform, also
  when the new scale was clamped. The arithmetic is exact (real numbers).
\<close>

theorem zoom_anchor_invariance:
  assumes "0.1 \<le> tr_scale t" and "tr_scale t \<le> 3"
  shows "contentToScreen (handleWheel t mouseX mouseY deltaY) (screenToContent t (mouseX, mouseY))
           = (mouseX, mouseY)"
proof -
  have nz: "tr_scale t \<noteq> 0" using assms(1) by auto
  define r where "r = max 0.1 (min 3 (tr_scale t * exp (- deltaY / 1000))) / tr_scale t"
  have sc: "tr_scale (handleWheel t mouseX mouseY deltaY) = r * tr_scale t"
    using nz by (simp add: handleWheel_scale r_def)
  have x: "tr_x (handleWheel t mouseX mouseY deltaY) = tr_x t - (mouseX - tr_x t) * (r - 1)"
    and y: "tr_y (handleWheel t mouseX mouseY deltaY) = tr_y t - (mouseY - tr_y t) * (r - 1)"
    by (simp_all add: handleWheel_def Let_def r_def)
  have "(mouseX - tr_x t) / tr_scale t * (r * tr_scale t) = (mouseX - tr_x t) * r"
    and "(mouseY - tr_y t) / tr_scale t * (r * tr_scale t) = (mouseY - tr_y t) * r"
    using nz by simp_all
  then show ?thesis
    by (simp add: contentToScreen_def screenToContent_def sc x y algebra_simps)
qed

theorem zoom_anchor_invariance_witness:
  "(0.1::real) \<le> tr_scale \<lparr>tr_x = 10, tr_y = 20, tr_scale = 3\<rparr>
   \<and> tr_scale \<lparr>tr_x = 10, tr_y = 20, tr_scale = 3\<rparr> \<le> 3
   \<and> contentToScreen (handleWheel \<lparr>tr_x = 10, tr_y = 20, tr_scale = 3\<rparr> 100 50 (- 1000))
         (screenToContent \<lparr>tr_x = 10, tr_y = 20, tr_scale = 3\<rparr> (100, 50)) = (100, 50)"
  using zoom_anchor_invariance [of "\<lparr>tr_x = 10, tr_y = 20, tr_scale = 3\<rparr>" 100 50 "- 1000"]
  by simp

subsection \<open>The wheel scale\<close>

lemma exp_one_less_3: "exp (1::real) < 3"
proof -
  have "exp (1/4 :: real) \<le> 1 + 1/4 + (1/4)\<^sup>2"
    by (rule exp_bound) simp_all
  then have q: "exp (1/4 :: real) \<le> 21/16" by (simp add: power2_eq_square)
  have "exp (1::real) = exp (1/4) ^ 4"
    by (simp add: exp_of_nat_mult [symmetric])
  also have "\<dots> \<le> (21/16) ^ 4"
    using q by (intro power_mono) simp_all
  also have "\<dots> < (3::real)" by (simp add: power4_eq_xxxx)
  finally show ?thesis .
qed

lemma wheel_full_notch_scale:
  "tr_scale (handleWheel \<lparr>tr_x = x0, tr_y = y0, tr_scale = 1\<rparr> mouseX mouseY (- 1000)) = exp 1"
proof -
  have "(1::real) \<le> exp 1" by simp
  then have "(1/10 :: real) \<le> exp 1" by linarith
  then have "max (1/10) (min 3 (exp (1::real))) = exp 1"
    using exp_one_less_3 by (simp only: max_def min_def) auto
  then show ?thesis by (simp add: handleWheel_scale)
qed

text \<open>
  C4, as stated, fails at its own example: a wheel event with \<open>deltaY = -1000\<close> at scale 1
  does not give scale 3, because \<open>e < 3\<close> and the ceiling does not bind.
\<close>

theorem wheel_full_notch_counterexample:
  "tr_scale (handleWheel \<lparr>tr_x = 0, tr_y = 0, tr_scale = 1\<rparr> 0 0 (- 1000)) \<noteq> 3"
  using exp_one_less_3 wheel_full_notch_scale [of 0 0 0 0] by simp

text \<open>
  C4, amended. For every wheel event the new scale is
  \<open>clamp(oldScale * exp(-deltaY / 1000), 0.1, 3)\<close>; in particular a wheel event with
  \<open>deltaY = -1000\<close> at scale 1 gives the scale factor \<open>e\<close> and the new scale \<open>e\<close>
  itself, unclamped, since \<open>e\<close> is below the ceiling 3.
\<close>

theorem wheel_scale_clamped:
  "tr_scale (handleWheel t mouseX mouseY deltaY) =
     max 0.1 (min 3 (tr_scale t * exp (- deltaY / 1000)))
   \<and> tr_scale (handleWheel \<lparr>tr_x = x0, tr_y = y0, tr_scale = 1\<rparr> mouseX mouseY (- 1000)) = exp 1
   \<and> exp (1::real) < 3"
  using exp_one_less_3 wheel_full_notch_scale [of x0 y0 mouseX mouseY]
  by (simp add: handleWheel_scale)

subsection \<open>Fit containment\<close>

lemma fit_axis:
  fixes a c s W x w :: real
  assumes "0 < s" and "(c - a) * s \<le> W - 120" and "a \<le> x" and "x + w \<le> c"
  shows "60 \<le> x * s + max ((W - (c - a) * s) / 2 - a * s) (60 - a * s)"
    and "(x + w) * s + max ((W - (c - a) * s) / 2 - a * s) (60 - a * s) \<le> W - 60"
proof -
  define q where "q = (c - a) * s"
  define l where "l = (x - a) * s"
  define r where "r = (x + w - a) * s"
  have q: "q \<le> W - 120" using assms(2) by (simp add: q_def)
  have m: "max ((W - q) / 2 - a * s) (60 - a * s) = (W - q) / 2 - a * s"
    using q by (simp add: max_def)
  have l: "0 \<le> l" using assms(1,3) by (simp add: l_def)
  have r: "r \<le> q"
    unfolding r_def q_def using assms(1,4) by (intro mult_right_mono) simp_all
  have xl: "x * s = l + a * s" and xr: "(x + w) * s = r + a * s"
    by (simp_all add: l_def r_def algebra_simps)
  show "60 \<le> x * s + max ((W - (c - a) * s) / 2 - a * s) (60 - a * s)"
    unfolding q_def [symmetric] m xl using l q by argo
  show "(x + w) * s + max ((W - (c - a) * s) / 2 - a * s) (60 - a * s) \<le> W - 60"
    unfolding q_def [symmetric] m xr using r q by argo
qed

lemma fit_scale_fits:
  fixes W H a b c d :: real
  assumes r: "0.15 \<le> fitScaleRatio W H a b c d" and cw: "0 < c - a" and ch: "0 < d - b"
  defines "s \<equiv> tr_scale (fitTransform W H a b c d)"
  shows "0 < s" and "(c - a) * s \<le> W - 120" and "(d - b) * s \<le> H - 120"
proof -
  let ?q = "fitScaleRatio W H a b c d"
  have s: "s = min ?q 0.9"
    using r by (simp add: s_def fitTransform_def Let_def max_def min_def)
  show "0 < s" using r by (simp add: s)
  have "s \<le> (W - 120) / (c - a)" "s \<le> (H - 120) / (d - b)"
    by (simp_all add: s fitScaleRatio_def fitContentWidth_def fitContentHeight_def Let_def
        min_le_iff_disj)
  then show "(c - a) * s \<le> W - 120" "(d - b) * s \<le> H - 120"
    using cw ch by (simp_all add: pos_le_divide_eq mult.commute)
qed

text \<open>
  C2, amended. When \<open>fitToView\<close> sets a transform and the unclamped fit ratio
  \<open>min(availableWidth / contentWidth, availableHeight / contentHeight)\<close> is at least
  0.15, so that the lower scale clamp does not enlarge the content beyond the available
  space, the screen-space box of every table that has a position, with the height given by
  the same expanded list that this call of \<open>fitToView\<close> read, lies within the viewport
  shrunk by the 60-pixel margin on every side.
\<close>

theorem fit_containment:
  assumes fit: "fitToView ex ts (Some (W, H)) = Some T"
    and bnd: "boundsLoop ex ts = \<lparr>minX = Fin a, minY = Fin b, maxX = Fin c, maxY = Fin d\<rparr>"
    and ratio: "0.15 \<le> fitScaleRatio W H a b c d"
  shows "\<forall>t \<in> set ts. \<forall>box. tableBox ex t = Some box \<longrightarrow> boxInsideMargin W H T box"
proof (intro ballI allI impI)
  fix t box
  assume t: "t \<in> set ts" and box: "tableBox ex t = Some box"
  have T: "T = fitTransform W H a b c d"
    using fit bnd by (auto simp: fitToView_def Let_def split: if_splits)
  from boundsLoop_cases [of ex ts] bnd
  have cov: "boundsCover ex ts a b c d" and cw: "240 \<le> c - a" and ch: "80 \<le> d - b"
    by (auto simp: initBounds_def)
  obtain x y where p: "position t = Some (x, y)"
    and b: "box = (x, y, 240, tableHeight ex t)"
    using box by (auto simp: tableBox_def split: option.splits)
  from cov t p have xy: "a \<le> x" "x + 240 \<le> c" "b \<le> y" "y + tableHeight ex t \<le> d"
    by (auto simp: boundsCover_def)
  define s where "s = tr_scale (fitTransform W H a b c d)"
  have s: "0 < s" "(c - a) * s \<le> W - 120" "(d - b) * s \<le> H - 120"
    using fit_scale_fits [OF ratio] cw ch by (simp_all add: s_def)
  have tx: "tr_x T = max ((W - (c - a) * s) / 2 - a * s) (60 - a * s)"
    and ty: "tr_y T = max ((H - (d - b) * s) / 2 - b * s) (60 - b * s)"
    and ts: "tr_scale T = s"
    by (simp_all add: T s_def fitTransform_def Let_def fitContentWidth_def fitContentHeight_def)
  show "boxInsideMargin W H T box"
    using fit_axis [OF s(1) s(2) xy(1) xy(2)] fit_axis [OF s(1) s(3) xy(3) xy(4)]
    by (simp add: boxInsideMargin_def b contentToScreen_def tx ty ts)
qed

lemma scenarioA_bounds:
  "boundsLoop [] [t_orders, t_items] = \<lparr>minX = Fin 0, minY = Fin 0, maxX = Fin 640, maxY = Fin 80\<rparr>"
  by (simp add: boundsLoop_def boundsStep_def initBounds_def t_orders_def t_items_def
      tableHeight_def)

lemma scenarioA_fit:
  "fitToView [] [t_orders, t_items] (Some (800, 600)) = Some \<lparr>tr_x = 112, tr_y = 264, tr_scale = 0.9\<rparr>"
  by (simp add: fitToView_def scenarioA_bounds fitTransform_def fitScaleRatio_def
      fitContentWidth_def fitContentHeight_def Let_def)

theorem fit_containment_witness:
  "fitToView [] [t_orders, t_items] (Some (800, 600)) = Some \<lparr>tr_x = 112, tr_y = 264, tr_scale = 0.9\<rparr>
   \<and> boundsLoop [] [t_orders, t_items] = \<lparr>minX = Fin 0, minY = Fin 0, maxX = Fin 640, maxY = Fin 80\<rparr>
   \<and> 0.15 \<le> fitScaleRatio 800 600 0 0 640 80
   \<and> tableBox [] t_orders = Some (0, 0, 240, 80)
   \<and> boxInsideMargin 800 600 \<lparr>tr_x = 112, tr_y = 264, tr_scale = 0.9\<rparr> (0, 0, 240, 80)
   \<and> tableBox [] t_items = Some (400, 0, 240, 80)
   \<and> boxInsideMargin 800 600 \<lparr>tr_x = 112, tr_y = 264, tr_scale = 0.9\<rparr> (400, 0, 240, 80)"
proof -
  have r: "0.15 \<le> fitScaleRatio 800 600 0 0 640 80"
    by (simp add: fitScaleRatio_def fitContentWidth_def fitContentHeight_def Let_def)
  have o: "tableBox [] t_orders = Some (0, 0, 240, 80)"
    and i: "tableBox [] t_items = Some (400, 0, 240, 80)"
    by (simp_all add: tableBox_def t_orders_def t_items_def tableHeight_def)
  have "\<forall>t \<in> set [t_orders, t_items]. \<forall>box. tableBox [] t = Some box \<longrightarrow>
         boxInsideMargin 800 600 \<lparr>tr_x = 112, tr_y = 264, tr_scale = 0.9\<rparr> box"
    by (rule fit_containment [OF scenarioA_fit scenarioA_bounds r])
  with o i have "boxInsideMargin 800 600 \<lparr>tr_x = 112, tr_y = 264, tr_scale = 0.9\<rparr> (0, 0, 240, 80)"
    and "boxInsideMargin 800 600 \<lparr>tr_x = 112, tr_y = 264, tr_scale = 0.9\<rparr> (400, 0, 240, 80)"
    by simp_all
  with scenarioA_fit scenarioA_bounds r o i show ?thesis by blast
qed

lemma far_bounds:
  "boundsLoop [] [t_orders, t_far] = \<lparr>minX = Fin 0, minY = Fin 0, maxX = Fin 10240, maxY = Fin 80\<rparr>"
  by (simp add: boundsLoop_def boundsStep_def initBounds_def t_orders_def t_far_def
      tableHeight_def)

lemma far_fit:
  "fitToView [] [t_orders, t_far] (Some (800, 600)) = Some \<lparr>tr_x = 60, tr_y = 294, tr_scale = 0.15\<rparr>"
  by (simp add: fitToView_def far_bounds fitTransform_def fitScaleRatio_def
      fitContentWidth_def fitContentHeight_def Let_def)

text \<open>
  C2, as stated, fails when the content is too large for the minimum scale 0.15: with
  collapsed tables at \<open>(0, 0)\<close> and \<open>(10000, 0)\<close> in an 800 by 600 viewport the fit
  scale is clamped up to 0.15 and the second box starts at screen x = 1560.
\<close>

theorem fit_containment_counterexample:
  "fitToView [] [t_orders, t_far] (Some (800, 600)) = Some \<lparr>tr_x = 60, tr_y = 294, tr_scale = 0.15\<rparr>
   \<and> tableBox [] t_far = Some (10000, 0, 240, 80)
   \<and> \<not> boxInsideMargin 800 600 \<lparr>tr_x = 60, tr_y = 294, tr_scale = 0.15\<rparr> (10000, 0, 240, 80)"
proof -
  have "tableBox [] t_far = Some (10000, 0, 240, 80)"
    by (simp add: tableBox_def t_far_def tableHeight_def)
  moreover have "\<not> boxInsideMargin 800 600 \<lparr>tr_x = 60, tr_y = 294, tr_scale = 0.15\<rparr> (10000, 0, 240, 80)"
    by (simp add: boxInsideMargin_def contentToScreen_def)
  ultimately show ?thesis using far_fit by simp
qed

text \<open>
  The boxes of the containment theorem are sized by the expanded list the fit read. The
  timers set by the data load and by \<open>toggleTable\<close> call a \<open>fitToView\<close> closure
  created before the list changed; a fit computed from the older list says nothing about
  boxes drawn with the newer one. The thirteen-column table fitted as collapsed and drawn
  expanded ends at screen y = 552, beyond 540.
\<close>

lemma wide_bounds:
  "boundsLoop [] [t_wide] = \<lparr>minX = Fin 0, minY = Fin 0, maxX = Fin 240, maxY = Fin 80\<rparr>"
  by (simp add: boundsLoop_def boundsStep_def initBounds_def t_wide_def tableHeight_def)

lemma fit_with_older_expanded_list:
  "fitToView [] [t_wide] (Some (800, 600)) = Some \<lparr>tr_x = 292, tr_y = 264, tr_scale = 0.9\<rparr>
   \<and> 0.15 \<le> fitScaleRatio 800 600 0 0 240 80
   \<and> tableBox [''wide''] t_wide = Some (0, 0, 240, 320)
   \<and> \<not> boxInsideMargin 800 600 \<lparr>tr_x = 292, tr_y = 264, tr_scale = 0.9\<rparr> (0, 0, 240, 320)"
proof -
  have "fitToView [] [t_wide] (Some (800, 600)) = Some \<lparr>tr_x = 292, tr_y = 264, tr_scale = 0.9\<rparr>"
    by (simp add: fitToView_def wide_bounds fitTransform_def fitScaleRatio_def
        fitContentWidth_def fitContentHeight_def Let_def)
  moreover have "0.15 \<le> fitScaleRatio 800 600 0 0 240 80"
    by (simp add: fitScaleRatio_def fitContentWidth_def fitContentHeight_def Let_def)
  moreover have "tableBox [''wide''] t_wide = Some (0, 0, 240, 320)"
    by (simp add: tableBox_def t_wide_def tableHeight_def columnCount_def)
  moreover have "\<not> boxInsideMargin 800 600 \<lparr>tr_x = 292, tr_y = 264, tr_scale = 0.9\<rparr> (0, 0, 240, 320)"
    by (simp add: boxInsideMargin_def contentToScreen_def)
  ultimately show ?thesis by simp
qed

subsection \<open>Connections: skipping and highlighting\<close>

lemma find_table_None:
  "i \<notin> table_id ` set tbls \<Longrightarrow> find (\<lambda>t. table_id t = i) tbls = None"
  by (auto simp: find_None_iff)

lemma renderConnection_stale:
  assumes "ep_table (conn_from c) \<notin> table_id ` set tbls \<or> ep_table (conn_to c) \<notin> table_id ` set tbls"
  shows "renderConnection tbls sel c = Inr None"
  using assms
  by (auto simp: renderConnection_def Let_def find_table_None split: option.splits)

lemma renderConnections_insert_skip:
  assumes "renderConnection tbls sel c = Inr None"
  shows "renderConnections tbls sel (xs @ c # ys) =
     (case renderConnections tbls sel (xs @ ys) of
        Inl e \<Rightarrow> Inl e
      | Inr ds \<Rightarrow> Inr (take (length xs) ds @ None # drop (length xs) ds))"
proof (induction xs)
  case Nil
  show ?case using assms by (simp split: sum.splits)
next
  case (Cons x xs)
  then show ?case by (simp split: sum.splits)
qed

lemma renderTable_box:
  "map_option dt_box (renderTable ex conns sel t) = tableBox ex t"
  by (simp add: renderTable_def tableBox_def tableHeight_def Let_def split: option.splits)

lemma isColumnHighlighted_insert:
  "isColumnHighlighted (xs @ c # ys) sel i col =
     (isColumnHighlighted (xs @ ys) sel i col \<or>
      (col = sel \<and> ((ep_table (conn_from c) = i \<and> ep_column (conn_from c) = col) \<or>
                     (ep_table (conn_to c) = i \<and> ep_column (conn_to c) = col))))"
  by (auto simp: isColumnHighlighted_def list_ex_iff)

lemma renderTable_insert_same:
  assumes "\<not> (ep_table (conn_from c) = table_id t \<and> ep_column (conn_from c) = sel)"
    and "\<not> (ep_table (conn_to c) = table_id t \<and> ep_column (conn_to c) = sel)"
  shows "renderTable ex (xs @ c # ys) sel t = renderTable ex (xs @ ys) sel t"
proof -
  have eq: "isColumnHighlighted (xs @ c # ys) sel (table_id t) col =
        isColumnHighlighted (xs @ ys) sel (table_id t) col" for col
    using assms by (auto simp: isColumnHighlighted_insert)
  show ?thesis
    by (simp add: renderTable_def Let_def eq split: option.splits)
qed

lemma renderTable_expanded:
  "map_option dt_expanded (renderTable ex conns sel t) =
     map_option (\<lambda>_. table_id t \<in> set ex) (position t)"
  by (simp add: renderTable_def Let_def split: option.splits)

lemma render_conn_a:
  "renderConnection [t_table1, t_table2] sel conn_a =
     Inr (Some \<lparr>d_path = path_a, d_highlighted = (''col_a'' = sel)\<rparr>)"
  by (simp add: renderConnection_def t_table1_def t_table2_def conn_a_def getConnectionPath_def
      path_a_def Let_def)

lemma render_table1_with_stale:
  "renderTable [''table1''] [conn_missing] ''col_a'' t_table1 =
     Some \<lparr>dt_box = (0, 0, 240, 120), dt_expanded = True,
           dt_rows = [(''col_a'', True), (''col_b'', False)]\<rparr>"
  by (simp add: renderTable_def t_table1_def conn_missing_def isColumnHighlighted_def
      tableHeight_def columnCount_def)

lemma render_table1_without:
  "renderTable [''table1''] [] ''col_a'' t_table1 =
     Some \<lparr>dt_box = (0, 0, 240, 120), dt_expanded = True,
           dt_rows = [(''col_a'', False), (''col_b'', False)]\<rparr>"
  by (simp add: renderTable_def t_table1_def isColumnHighlighted_def
      tableHeight_def columnCount_def)

text \<open>
  C6, as stated, fails for the tables: the row highlight of a table is computed by
  \<open>isColumnHighlighted\<close> from every connection, skipped ones included. The connection
  \<open>table1.col_a\<close> to \<open>missing.col_a\<close> is skipped, yet with it the \<open>col_a\<close> row of
  \<open>table1\<close> is drawn highlighted, and without it it is not.
\<close>

theorem stale_connection_row_counterexample:
  "ep_table (conn_to conn_missing) \<notin> table_id ` set [t_table1, t_table2]
   \<and> renderTable [''table1''] [conn_missing] ''col_a'' t_table1 =
       Some \<lparr>dt_box = (0, 0, 240, 120), dt_expanded = True,
             dt_rows = [(''col_a'', True), (''col_b'', False)]\<rparr>
   \<and> renderTable [''table1''] [] ''col_a'' t_table1 =
       Some \<lparr>dt_box = (0, 0, 240, 120), dt_expanded = True,
             dt_rows = [(''col_a'', False), (''col_b'', False)]\<rparr>
   \<and> renderTable [''table1''] [conn_missing] ''col_a'' t_table1
       \<noteq> renderTable [''table1''] [] ''col_a'' t_table1"
  by (simp add: render_table1_with_stale render_table1_without)
     (simp add: conn_missing_def t_table1_def t_table2_def)

text \<open>
  C6, amended. A connection whose \<open>from.table\<close> or \<open>to.table\<close> is the id of no table is
  skipped without an exception: its own result is the \<open>null\<close> of the map, and the scene
  rendered with it in the connection list is the scene of the other connections, each with
  the result it has without it (or the exception one of them raises), with the skipped
  entry in its place. The box and the expand flag of every table are what they are without
  the skipped connection, and so is the whole rendering of a table, rows included, unless
  an endpoint of the skipped connection names that table together with the selected
  column.
\<close>

theorem stale_connection_skipped:
  assumes "ep_table (conn_from c) \<notin> table_id ` set tbls \<or> ep_table (conn_to c) \<notin> table_id ` set tbls"
  shows "renderConnection tbls sel c = Inr None
    \<and> renderScene ex tbls (xs @ c # ys) sel =
        (case renderConnections tbls sel (xs @ ys) of
           Inl e \<Rightarrow> Inl e
         | Inr ds \<Rightarrow> Inr (take (length xs) ds @ None # drop (length xs) ds,
                         map (renderTable ex (xs @ c # ys) sel) tbls))
    \<and> map_option dt_box (renderTable ex (xs @ c # ys) sel t)
        = map_option dt_box (renderTable ex (xs @ ys) sel t)
    \<and> map_option dt_expanded (renderTable ex (xs @ c # ys) sel t)
        = map_option dt_expanded (renderTable ex (xs @ ys) sel t)
    \<and> (\<not> (ep_table (conn_from c) = table_id t \<and> ep_column (conn_from c) = sel) \<and>
        \<not> (ep_table (conn_to c) = table_id t \<and> ep_column (conn_to c) = sel)
        \<longrightarrow> renderTable ex (xs @ c # ys) sel t = renderTable ex (xs @ ys) sel t)"
proof -
  have skip: "renderConnection tbls sel c = Inr None"
    using assms by (rule renderConnection_stale)
  have scene: "renderScene ex tbls (xs @ c # ys) sel =
        (case renderConnections tbls sel (xs @ ys) of
           Inl e \<Rightarrow> Inl e
         | Inr ds \<Rightarrow> Inr (take (length xs) ds @ None # drop (length xs) ds,
                         map (renderTable ex (xs @ c # ys) sel) tbls))"
    by (simp add: renderScene_def renderConnections_insert_skip [OF skip] split: sum.splits)
  have box: "map_option dt_box (renderTable ex (xs @ c # ys) sel t)
        = map_option dt_box (renderTable ex (xs @ ys) sel t)"
    by (simp add: renderTable_box)
  have expd: "map_option dt_expanded (renderTable ex (xs @ c # ys) sel t)
        = map_option dt_expanded (renderTable ex (xs @ ys) sel t)"
    by (simp add: renderTable_expanded)
  show ?thesis
    using skip scene box expd renderTable_insert_same [of c t sel ex xs ys] by blast
qed

theorem stale_connection_skipped_witness:
  "ep_table (conn_to conn_missing) \<notin> table_id ` set [t_table1, t_table2]
   \<and> renderConnection [t_table1, t_table2] ''col_a'' conn_missing = Inr None
   \<and> renderConnections [t_table1, t_table2] ''col_a'' [conn_a] =
        Inr [Some \<lparr>d_path = path_a, d_highlighted = True\<rparr>]
   \<and> renderScene [''table1''] [t_table1, t_table2] [conn_missing, conn_a] ''col_a'' =
        Inr ([None, Some \<lparr>d_path = path_a, d_highlighted = True\<rparr>],
             map (renderTable [''table1''] [conn_missing, conn_a] ''col_a'') [t_table1, t_table2])
   \<and> ep_table (conn_from conn_missing) \<noteq> table_id t_table2
   \<and> ep_table (conn_to conn_missing) \<noteq> table_id t_table2
   \<and> renderTable [''table1''] [conn_missing, conn_a] ''col_a'' t_table2
        = renderTable [''table1''] [conn_a] ''col_a'' t_table2"
proof -
  have t: "ep_table (conn_to conn_missing) \<notin> table_id ` set [t_table1, t_table2]"
    by (simp add: conn_missing_def t_table1_def t_table2_def)
  then have h: "ep_table (conn_from conn_missing) \<notin> table_id ` set [t_table1, t_table2]
      \<or> ep_table (conn_to conn_missing) \<notin> table_id ` set [t_table1, t_table2]"
    by (rule disjI2)
  have a: "renderConnections [t_table1, t_table2] ''col_a'' [conn_a] =
        Inr [Some \<lparr>d_path = path_a, d_highlighted = True\<rparr>]"
    by (simp add: render_conn_a)
  have n: "ep_table (conn_from conn_missing) \<noteq> table_id t_table2"
    "ep_table (conn_to conn_missing) \<noteq> table_id t_table2"
    by (simp_all add: conn_missing_def t_table2_def)
  show ?thesis
    using t a n
      stale_connection_skipped [OF h, of "''col_a''" "[''table1'']" "[]" "[conn_a]" t_table2]
    by simp
qed

text \<open>
  C7. The highlight flag of a drawn connection is true exactly when its \<open>from.column\<close>
  or its \<open>to.column\<close> equals the selected column. Scenario B: the connection
  \<open>table1.col_a\<close> to \<open>table2.col_a\<close> is highlighted for the selection \<open>col_a\<close> and not
  for \<open>col_b\<close>.
\<close>

theorem connection_highlight:
  assumes "renderConnection tbls selectedColumn c = Inr (Some d)"
  shows "d_highlighted d =
     (ep_column (conn_from c) = selectedColumn \<or> ep_column (conn_to c) = selectedColumn)"
  using assms
  by (auto simp: renderConnection_def Let_def split: option.splits sum.splits)

theorem connection_highlight_witness:
  "renderConnection [t_table1, t_table2] ''col_a'' conn_a =
     Inr (Some \<lparr>d_path = path_a, d_highlighted = True\<rparr>)
   \<and> renderConnection [t_table1, t_table2] ''col_b'' conn_a =
     Inr (Some \<lparr>d_path = path_a, d_highlighted = False\<rparr>)"
proof -
  have a: "renderConnection [t_table1, t_table2] ''col_a'' conn_a =
     Inr (Some \<lparr>d_path = path_a, d_highlighted = (''col_a'' = ''col_a'')\<rparr>)"
    and b: "renderConnection [t_table1, t_table2] ''col_b'' conn_a =
     Inr (Some \<lparr>d_path = path_a, d_highlighted = (''col_a'' = ''col_b'')\<rparr>)"
    by (rule render_conn_a)+
  have "ep_column (conn_from conn_a) = ''col_a''" "ep_column (conn_to conn_a) = ''col_a''"
    by (simp_all add: conn_a_def)
  then show ?thesis
    using connection_highlight [OF a] connection_highlight [OF b] a b by simp
qed

end
